theory Spec2Isabelle
  imports Complex_Main
begin

section \<open>The transcript batch builder (create_chunks.py)\<close>

text \<open>
  The script is one module-level loop: for every entry of the directory \<open>tedx_audios\<close>
  it parses the file name, prints the parsed pair, calls the transcription model, builds
  one chunk dictionary per segment, and writes the JSON document to
  \<open>jsons/<audio>.json\<close>. Nothing in it is guarded, so every exception ends the loop.

  Strings are lists of characters; the script only ever compares a character with the
  underscore and counts characters, so the characters are atomic symbols here.
\<close>

subsection \<open>Python's string and list primitives used by the script\<close>

datatype error = IndexError | TranscribeError | OpenError | DumpError

text \<open>
  \<open>s.split(sep)\<close> with an explicit one-character separator: every occurrence of the
  separator ends a token, empty tokens are kept, and the result is never empty
  (\<open>"".split("_")\<close> is \<open>[""]\<close>).
\<close>

fun str_split :: "char \<Rightarrow> string \<Rightarrow> string list" where
  "str_split sep [] = [[]]"
| "str_split sep (c # cs) =
     (if c = sep then [] # str_split sep cs
      else (case str_split sep cs of
              [] \<Rightarrow> [[c]]
            | tok # toks \<Rightarrow> (c # tok) # toks))"

text \<open>\<open>xs[i]\<close>: a negative index counts from the end, an index out of range raises.\<close>

definition py_index :: "'a list \<Rightarrow> int \<Rightarrow> error + 'a" where
  "py_index xs i =
     (if 0 \<le> i \<and> i < int (length xs) then Inr (xs ! nat i)
      else if i < 0 \<and> - int (length xs) \<le> i then Inr (xs ! nat (int (length xs) + i))
      else Inl IndexError)"

text \<open>
  \<open>xs[:j]\<close>: a negative bound counts from the end and is clamped at 0, a bound beyond
  the length is clamped at the length. A slice never raises.
\<close>

definition py_slice_to :: "'a list \<Rightarrow> int \<Rightarrow> 'a list" where
  "py_slice_to xs j =
     (if j < 0 then take (nat (int (length xs) + j)) xs else take (nat j) xs)"

subsection \<open>The data of one file\<close>

text \<open>
  The transcription result is the dictionary returned by \<open>model.transcribe\<close>; the script
  reads \<open>result["segments"]\<close>, \<open>result["text"]\<close> and of each segment the keys
  \<open>start\<close>, \<open>end\<close> and \<open>text\<close>. The times are floats that the script only copies, so
  their type is a parameter.
\<close>

record 'f segment =
  s_start :: 'f
  s_end :: 'f
  s_text :: string

record 'f transcription =
  r_segments :: "'f segment list"
  r_text :: string

text \<open>The dictionary appended to \<open>chunks\<close>, with the keys in the order of the literal.\<close>

record 'f chunk =
  c_number :: string
  c_title :: string
  c_start :: 'f
  c_end :: 'f
  c_text :: string

text \<open>The dictionary \<open>chunks_with_metadata\<close> that is handed to \<open>json.dump\<close>.\<close>

record 'f document =
  d_chunks :: "'f chunk list"
  d_text :: string

subsection \<open>Lines 10 and 11: number and title\<close>

definition parse_filename :: "string \<Rightarrow> error + (string \<times> string)" where
  "parse_filename audio =
     (case py_index (str_split CHR ''_'' audio) 0 of
        Inl e \<Rightarrow> Inl e
      | Inr number \<Rightarrow>
          (case py_index (str_split CHR ''_'' audio) 1 of
             Inl e \<Rightarrow> Inl e
           | Inr tok \<Rightarrow> Inr (number, py_slice_to tok (- 4))))"

text \<open>
  The title as the specification words it: the second token with its last three
  characters removed. It is compared with the title of the code below.
\<close>

definition spec_title :: "string \<Rightarrow> string" where
  "spec_title audio =
     (let tok = str_split CHR ''_'' audio ! 1 in take (length tok - 3) tok)"

subsection \<open>Lines 19 to 23: the chunks and the document\<close>

fun chunks_loop ::
  "string \<Rightarrow> string \<Rightarrow> 'f segment list \<Rightarrow> 'f chunk list \<Rightarrow> 'f chunk list" where
  "chunks_loop number title [] chunks = chunks"
| "chunks_loop number title (segment # rest) chunks =
     chunks_loop number title rest
       (chunks @ [\<lparr>c_number = number, c_title = title, c_start = s_start segment,
                   c_end = s_end segment, c_text = s_text segment\<rparr>])"

definition chunks_with_metadata ::
  "string \<Rightarrow> string \<Rightarrow> 'f transcription \<Rightarrow> 'f document" where
  "chunks_with_metadata number title result =
     \<lparr>d_chunks = chunks_loop number title (r_segments result) [],
      d_text = r_text result\<rparr>"

text \<open>
  Lines 10, 11 and 19 to 23 together: the document of a file as a function of the file
  name and of the transcription result alone.
\<close>

definition build_document :: "string \<Rightarrow> 'f transcription \<Rightarrow> error + 'f document" where
  "build_document audio result =
     (case parse_filename audio of
        Inl e \<Rightarrow> Inl e
      | Inr (number, title) \<Rightarrow> Inr (chunks_with_metadata number title result))"

subsection \<open>The outside world\<close>

text \<open>
  The collaborators of the script that are not its own code:
  \<^item> the loaded model's \<open>transcribe\<close>, a function of the path and the three fixed
    arguments, \<open>None\<close> when it raises;
  \<^item> whether \<open>open(path, "w")\<close> succeeds; when it does the file exists and is empty,
    when it raises the disk is untouched;
  \<^item> the body of the \<open>with\<close> block on the file opened at a path, that is
    \<open>json.dump(document, f)\<close> and the closing of the file: \<open>Inr s\<close> when both return
    with the serialisation \<open>s\<close> in the file, \<open>Inl s\<close> when one of them raises with only
    \<open>s\<close> in the file.
\<close>

record 'f env =
  transcribe :: "string \<Rightarrow> string \<Rightarrow> string \<Rightarrow> bool \<Rightarrow> 'f transcription option"
  can_open :: "string \<Rightarrow> bool"
  json_dump :: "'f document \<Rightarrow> string \<Rightarrow> string + string"

text \<open>The state the script changes: the files on disk and the lines printed.\<close>

record world =
  files :: "string \<rightharpoonup> string"
  stdout :: "string list"

definition in_path :: "string \<Rightarrow> string" where
  "in_path audio = ''tedx_audios/'' @ audio"

definition out_path :: "string \<Rightarrow> string" where
  "out_path audio = ''jsons/'' @ audio @ ''.json''"

subsection \<open>Lines 9 to 26: the loop body and the loop\<close>

definition process_audio :: "'f env \<Rightarrow> string \<Rightarrow> world \<Rightarrow> world \<times> error option" where
  "process_audio env audio w =
     (case parse_filename audio of
        Inl e \<Rightarrow> (w, Some e)
      | Inr (number, title) \<Rightarrow>
          (let w1 = w\<lparr>stdout := stdout w @ [number @ '' '' @ title]\<rparr> in
           case transcribe env (in_path audio) ''hi'' ''translate'' False of
             None \<Rightarrow> (w1, Some TranscribeError)
           | Some result \<Rightarrow>
               (if can_open env (out_path audio)
                then (case json_dump env (chunks_with_metadata number title result)
                             (out_path audio) of
                        Inl s \<Rightarrow> (w1\<lparr>files := (files w1)(out_path audio \<mapsto> s)\<rparr>,
                                  Some DumpError)
                      | Inr s \<Rightarrow> (w1\<lparr>files := (files w1)(out_path audio \<mapsto> s)\<rparr>, None))
                else (w1, Some OpenError))))"

fun run_batch :: "'f env \<Rightarrow> string list \<Rightarrow> world \<Rightarrow> world \<times> error option" where
  "run_batch env [] w = (w, None)"
| "run_batch env (audio # audios) w =
     (case process_audio env audio w of
        (w', None) \<Rightarrow> run_batch env audios w'
      | (w', Some e) \<Rightarrow> (w', Some e))"

text \<open>A second run of the script is a new process: the disk is kept, nothing is printed yet.\<close>

definition rerun :: "'f env \<Rightarrow> string list \<Rightarrow> world \<Rightarrow> world \<times> error option" where
  "rerun env audios w = run_batch env audios (w\<lparr>stdout := []\<rparr>)"

text \<open>
  The exception of one iteration as a function of the file name and of the
  collaborators alone: the four places where the loop body can raise, in its order.
\<close>

definition audio_error :: "'f env \<Rightarrow> string \<Rightarrow> error option" where
  "audio_error env audio =
     (case parse_filename audio of
        Inl e \<Rightarrow> Some e
      | Inr (number, title) \<Rightarrow>
          (case transcribe env (in_path audio) ''hi'' ''translate'' False of
             None \<Rightarrow> Some TranscribeError
           | Some result \<Rightarrow>
               (if can_open env (out_path audio)
                then (if isl (json_dump env (chunks_with_metadata number title result)
                                (out_path audio))
                      then Some DumpError else None)
                else Some OpenError)))"

definition audio_ok :: "'f env \<Rightarrow> string \<Rightarrow> bool" where
  "audio_ok env audio \<longleftrightarrow> audio_error env audio = None"

subsection \<open>A concrete input directory\<close>

text \<open>
  One talk whose transcription has a single segment, a model that knows only this
  talk, and a stand-in serialisation that writes the titles and the text of a document.
\<close>

definition talk_result :: "real transcription" where
  "talk_result =
     \<lparr>r_segments = [\<lparr>s_start = 0, s_end = 5 / 2, s_text = ''hello''\<rparr>],
      r_text = ''hello''\<rparr>"

definition talk_env :: "real env" where
  "talk_env =
     \<lparr>transcribe = (\<lambda>path language task word_timestamps.
         if path = ''tedx_audios/07_my-talk.mp3'' then Some talk_result else None),
      can_open = (\<lambda>path. True),
      json_dump = (\<lambda>doc path. Inr (concat (map c_title (d_chunks doc)) @ d_text doc))\<rparr>"

text \<open>A second model, which answers for every path and agrees with the first on the talk.\<close>

definition talk_env2 :: "real env" where
  "talk_env2 =
     \<lparr>transcribe = (\<lambda>path language task word_timestamps.
         if path = ''tedx_audios/07_my-talk.mp3'' then Some talk_result
         else Some \<lparr>r_segments = [], r_text = []\<rparr>),
      can_open = (\<lambda>path. True),
      json_dump = (\<lambda>doc path. Inr (concat (map c_title (d_chunks doc)) @ d_text doc))\<rparr>"

text \<open>The first model on a disk where every write stops after the opening brace.\<close>

definition full_disk_env :: "real env" where
  "full_disk_env = talk_env\<lparr>json_dump := (\<lambda>doc path. Inl ''{'')\<rparr>"

text \<open>
  The second model on a disk where the output of the talk is written in full and every
  other write stops after the opening brace.
\<close>

definition small_disk_env :: "real env" where
  "small_disk_env =
     talk_env2\<lparr>json_dump := (\<lambda>doc path.
        if path = ''jsons/07_my-talk.mp3.json''
        then Inr (concat (map c_title (d_chunks doc)) @ d_text doc)
        else Inl ''{'')\<rparr>"

text \<open>A disk that already holds an output file for a later talk.\<close>

definition old_world :: world where
  "old_world = \<lparr>files = [''jsons/08_next.mp3.json'' \<mapsto> ''old''], stdout = []\<rparr>"

definition empty_world :: world where
  "empty_world = \<lparr>files = Map.empty, stdout = []\<rparr>"

section \<open>Properties\<close>

subsection \<open>Splitting and slicing\<close>

lemma str_split_not_Nil: "str_split sep s \<noteq> []"
  by (induction s) (auto split: list.splits)

lemma str_split_no_sep: "sep \<notin> set s \<Longrightarrow> str_split sep s = [s]"
  by (induction s) auto

lemma str_split_append:
  "sep \<notin> set a \<Longrightarrow> str_split sep (a @ sep # b) = a # str_split sep b"
  by (induction a) auto

lemma py_slice_to_minus4: "py_slice_to xs (- 4) = take (length xs - 4) xs"
  by (simp add: py_slice_to_def nat_diff_distrib' of_nat_diff)

lemma parse_filename_tokens:
  "str_split CHR ''_'' audio = t0 # t1 # ts \<Longrightarrow>
   parse_filename audio = Inr (t0, take (length t1 - 4) t1)"
  by (simp add: parse_filename_def py_index_def py_slice_to_minus4)

lemma parse_filename_one_token:
  "str_split CHR ''_'' audio = [t0] \<Longrightarrow> parse_filename audio = Inl IndexError"
  by (simp add: parse_filename_def py_index_def)

lemma parse_filename_delim:
  "CHR ''_'' \<in> set audio \<Longrightarrow> \<exists>number title. parse_filename audio = Inr (number, title)"
proof -
  assume "CHR ''_'' \<in> set audio"
  then obtain a b where ab: "audio = a @ CHR ''_'' # b" "CHR ''_'' \<notin> set a"
    by (metis split_list_first)
  obtain t ts where "str_split CHR ''_'' b = t # ts"
    using str_split_not_Nil by (cases "str_split CHR ''_'' b") auto
  then have "str_split CHR ''_'' audio = a # t # ts"
    using ab by (simp add: str_split_append)
  then show ?thesis
    by (auto dest: parse_filename_tokens)
qed

lemma parse_filename_no_delim:
  "CHR ''_'' \<notin> set audio \<Longrightarrow> parse_filename audio = Inl IndexError"
  by (simp add: str_split_no_sep parse_filename_one_token)

lemma parse_filename_error_iff:
  "parse_filename audio = Inl e \<longleftrightarrow> CHR ''_'' \<notin> set audio \<and> e = IndexError"
  by (cases "CHR ''_'' \<in> set audio")
    (auto dest: parse_filename_delim simp: parse_filename_no_delim)

lemma parse_filename_Inl: "parse_filename audio = Inl e \<Longrightarrow> e = IndexError"
  by (simp add: parse_filename_error_iff)

lemma talk_parse: "parse_filename ''07_my-talk.mp3'' = Inr (''07'', ''my-talk'')"
  by (simp add: parse_filename_def py_index_def py_slice_to_def)

subsection \<open>The chunks of a document\<close>

lemma chunks_loop_map:
  "chunks_loop number title segs acc =
     acc @ map (\<lambda>segment. \<lparr>c_number = number, c_title = title, c_start = s_start segment,
                   c_end = s_end segment, c_text = s_text segment\<rparr>) segs"
  by (induction segs arbitrary: acc) auto

lemma d_chunks_map:
  "d_chunks (chunks_with_metadata number title result) =
     map (\<lambda>segment. \<lparr>c_number = number, c_title = title, c_start = s_start segment,
                   c_end = s_end segment, c_text = s_text segment\<rparr>) (r_segments result)"
  by (simp add: chunks_with_metadata_def chunks_loop_map)

subsection \<open>One iteration\<close>

lemma out_path_inject: "out_path a = out_path b \<longleftrightarrow> a = b"
  by (simp add: out_path_def)

lemma process_audio_success:
  assumes "parse_filename a = Inr (number, title)"
    and "transcribe env (in_path a) ''hi'' ''translate'' False = Some result"
    and "can_open env (out_path a)"
    and "json_dump env (chunks_with_metadata number title result) (out_path a) = Inr s"
  shows "process_audio env a w =
     (\<lparr>files = (files w)(out_path a \<mapsto> s), stdout = stdout w @ [number @ '' '' @ title]\<rparr>,
      None)"
  using assms by (simp add: process_audio_def)

lemma process_audio_error: "snd (process_audio env a w) = audio_error env a"
  by (simp add: process_audio_def audio_error_def Let_def
      split: sum.splits prod.splits option.splits)

lemma audio_error_delim:
  "audio_error env a = Some IndexError \<longleftrightarrow> CHR ''_'' \<notin> set a"
proof (cases "CHR ''_'' \<in> set a")
  case True
  then obtain number title where "parse_filename a = Inr (number, title)"
    using parse_filename_delim by blast
  then show ?thesis
    using True by (simp add: audio_error_def split: option.splits)
next
  case False
  then show ?thesis
    by (simp add: audio_error_def parse_filename_no_delim)
qed

lemma process_audio_no_write:
  "audio_error env a = Some e \<Longrightarrow> e \<noteq> DumpError \<Longrightarrow>
   files (fst (process_audio env a w)) = files w"
  by (auto simp: process_audio_def audio_error_def Let_def
      split: sum.splits prod.splits option.splits if_splits)

lemma audio_error_dump:
  "audio_error env a = Some DumpError \<Longrightarrow>
   \<exists>number title result s. parse_filename a = Inr (number, title)
     \<and> transcribe env (in_path a) ''hi'' ''translate'' False = Some result
     \<and> can_open env (out_path a)
     \<and> json_dump env (chunks_with_metadata number title result) (out_path a) = Inl s"
proof -
  assume err: "audio_error env a = Some DumpError"
  obtain number title where p: "parse_filename a = Inr (number, title)"
    using err parse_filename_Inl [of a]
    by (cases "parse_filename a") (auto simp: audio_error_def)
  obtain result where t: "transcribe env (in_path a) ''hi'' ''translate'' False = Some result"
    using err p
    by (cases "transcribe env (in_path a) ''hi'' ''translate'' False")
      (auto simp: audio_error_def)
  have c: "can_open env (out_path a)"
    using err p t by (cases "can_open env (out_path a)") (auto simp: audio_error_def)
  obtain s where "json_dump env (chunks_with_metadata number title result) (out_path a) = Inl s"
    using err p t c
    by (cases "json_dump env (chunks_with_metadata number title result) (out_path a)")
      (auto simp: audio_error_def)
  then show ?thesis
    using p t c by blast
qed

lemma process_audio_dump_failure:
  assumes "parse_filename a = Inr (number, title)"
    and "transcribe env (in_path a) ''hi'' ''translate'' False = Some result"
    and "can_open env (out_path a)"
    and "json_dump env (chunks_with_metadata number title result) (out_path a) = Inl s"
  shows "process_audio env a w =
     (\<lparr>files = (files w)(out_path a \<mapsto> s), stdout = stdout w @ [number @ '' '' @ title]\<rparr>,
      Some DumpError)"
  using assms by (simp add: process_audio_def)

lemma process_audio_frame:
  "p \<noteq> out_path a \<Longrightarrow> files (fst (process_audio env a w)) p = files w p"
  by (auto simp: process_audio_def Let_def split: sum.splits prod.splits option.splits)

lemma not_isl_Inr: "\<not> isl x \<Longrightarrow> \<exists>s. x = Inr s"
  by (cases x) simp_all

lemma audio_ok_data:
  "audio_ok env a \<Longrightarrow>
   \<exists>number title result s. parse_filename a = Inr (number, title)
     \<and> transcribe env (in_path a) ''hi'' ''translate'' False = Some result
     \<and> can_open env (out_path a)
     \<and> json_dump env (chunks_with_metadata number title result) (out_path a) = Inr s"
  by (auto simp: audio_ok_def audio_error_def dest: not_isl_Inr
      split: sum.splits prod.splits option.splits if_splits)

lemma talk_ok: "audio_ok talk_env ''07_my-talk.mp3''"
  by (simp add: audio_ok_def audio_error_def talk_parse talk_env_def in_path_def)

subsection \<open>The loop\<close>

lemma run_batch_append:
  "run_batch env (xs @ ys) w =
     (case run_batch env xs w of
        (w', None) \<Rightarrow> run_batch env ys w'
      | (w', Some e) \<Rightarrow> (w', Some e))"
  by (induction xs arbitrary: w) (auto split: prod.splits option.splits)

lemma run_batch_frame:
  "p \<notin> out_path ` set audios \<Longrightarrow> files (fst (run_batch env audios w)) p = files w p"
proof (induction audios arbitrary: w)
  case Nil
  then show ?case by simp
next
  case (Cons a audios)
  obtain w' r where step: "process_audio env a w = (w', r)"
    by (cases "process_audio env a w")
  have "files w' p = files w p"
    using Cons.prems process_audio_frame [of p a env w] step by simp
  moreover have "files (fst (run_batch env audios w')) p = files w' p"
    using Cons by simp
  ultimately show ?case
    using step by (cases r) simp_all
qed

lemma run_batch_ok_iff:
  "snd (run_batch env audios w) = None \<longleftrightarrow> (\<forall>a\<in>set audios. audio_ok env a)"
proof (induction audios arbitrary: w)
  case Nil
  then show ?case by simp
next
  case (Cons a audios)
  obtain w' r where step: "process_audio env a w = (w', r)"
    by (cases "process_audio env a w")
  have "r = None \<longleftrightarrow> audio_ok env a"
    using process_audio_error [of env a w] step by (simp add: audio_ok_def)
  then show ?case
    using step Cons.IH [of w'] by (cases r) auto
qed

lemma run_batch_written:
  assumes "\<forall>x\<in>set audios. audio_ok env x" and "a \<in> set audios"
    and "parse_filename a = Inr (number, title)"
    and "transcribe env (in_path a) ''hi'' ''translate'' False = Some result"
    and "json_dump env (chunks_with_metadata number title result) (out_path a) = Inr s"
  shows "files (fst (run_batch env audios w)) (out_path a) = Some s"
  using assms(1,2)
proof (induction audios arbitrary: w)
  case Nil
  then show ?case by simp
next
  case (Cons x audios)
  have okx: "audio_ok env x"
    using Cons.prems by simp
  obtain w' where step: "process_audio env x w = (w', None)"
    using process_audio_error [of env x w] okx
    by (cases "process_audio env x w") (auto simp: audio_ok_def)
  show ?case
  proof (cases "a \<in> set audios")
    case True
    then show ?thesis
      using Cons step by simp
  next
    case False
    then have ax: "a = x"
      using Cons.prems by simp
    have "can_open env (out_path a)"
      using okx ax audio_ok_data by blast
    then have "files w' (out_path a) = Some s"
      using process_audio_success [OF assms(3,4) _ assms(5), of w] step ax by auto
    moreover have "out_path a \<notin> out_path ` set audios"
      using False by (auto simp: out_path_inject)
    ultimately show ?thesis
      using step run_batch_frame [of "out_path a" audios env w'] by simp
  qed
qed

subsection \<open>Two runs\<close>

lemma map_add_twice: "(m ++ n) ++ n = m ++ n"
  by (rule ext) (simp add: map_add_def split: option.splits)

lemma process_audio_shift:
  assumes "transcribe env' (in_path a) ''hi'' ''translate'' False
             = transcribe env (in_path a) ''hi'' ''translate'' False"
    and "can_open env' = can_open env" and "json_dump env' = json_dump env"
    and "files w2 = fs ++ files w"
  shows "files (fst (process_audio env' a w2)) = fs ++ files (fst (process_audio env a w))
       \<and> snd (process_audio env' a w2) = snd (process_audio env a w)"
proof (cases "parse_filename a")
  case (Inl e)
  then show ?thesis
    using assms(4) by (simp add: process_audio_def)
next
  case (Inr nt)
  obtain number title where nt: "nt = (number, title)"
    by (cases nt)
  show ?thesis
  proof (cases "transcribe env (in_path a) ''hi'' ''translate'' False")
    case None
    then show ?thesis
      using assms(1,4) Inr nt by (simp add: process_audio_def Let_def)
  next
    case (Some result)
    show ?thesis
    proof (cases "json_dump env (chunks_with_metadata number title result) (out_path a)")
      case (Inl s)
      then show ?thesis
        using assms \<open>parse_filename a = Inr nt\<close> nt Some
        by (simp add: process_audio_def Let_def)
    next
      case (Inr s)
      then show ?thesis
        using assms \<open>parse_filename a = Inr nt\<close> nt Some
        by (simp add: process_audio_def Let_def)
    qed
  qed
qed

lemma run_batch_shift:
  assumes "\<forall>a\<in>set audios. transcribe env' (in_path a) ''hi'' ''translate'' False
             = transcribe env (in_path a) ''hi'' ''translate'' False"
    and "can_open env' = can_open env" and "json_dump env' = json_dump env"
    and "files w2 = fs ++ files w"
  shows "files (fst (run_batch env' audios w2)) = fs ++ files (fst (run_batch env audios w))
       \<and> snd (run_batch env' audios w2) = snd (run_batch env audios w)"
  using assms(1,4)
proof (induction audios arbitrary: w w2)
  case Nil
  then show ?case by simp
next
  case (Cons a audios)
  obtain v r where s1: "process_audio env a w = (v, r)"
    by (cases "process_audio env a w")
  obtain v2 r2 where s2: "process_audio env' a w2 = (v2, r2)"
    by (cases "process_audio env' a w2")
  have tr: "transcribe env' (in_path a) ''hi'' ''translate'' False
             = transcribe env (in_path a) ''hi'' ''translate'' False"
    using Cons.prems(1) by simp
  have sh: "files v2 = fs ++ files v" "r2 = r"
    using process_audio_shift [OF tr assms(2,3) Cons.prems(2)] s1 s2 by simp_all
  show ?case
  proof (cases r)
    case None
    have "files (fst (run_batch env' audios v2)) = fs ++ files (fst (run_batch env audios v))
       \<and> snd (run_batch env' audios v2) = snd (run_batch env audios v)"
      using Cons.IH [OF _ sh(1)] Cons.prems(1) by simp
    then show ?thesis
      using s1 s2 sh None by simp
  next
    case (Some e)
    then show ?thesis
      using s1 s2 sh by simp
  qed
qed

section \<open>The claims\<close>

subsection \<open>Number and title of a file name\<close>

text \<open>
  Claim C1, with the number of removed characters as the code has it. A file name
  \<open>idx_rest\<close> whose \<open>idx\<close> is free of underscores splits into at least two tokens, the
  first of which is \<open>idx\<close>; the number is the first token and the title is the second
  token with its last four characters removed. When \<open>rest\<close> holds no further
  underscore the title is \<open>rest\<close> without its last four characters, and for
  \<open>rest = title.ext\<close> with an extension of three characters it is exactly \<open>title\<close>.
\<close>

theorem parse_filename_valid:
  assumes "CHR ''_'' \<notin> set idx"
  shows "2 \<le> length (str_split CHR ''_'' (idx @ ''_'' @ rest))
       \<and> str_split CHR ''_'' (idx @ ''_'' @ rest) ! 0 = idx
       \<and> parse_filename (idx @ ''_'' @ rest) =
           Inr (str_split CHR ''_'' (idx @ ''_'' @ rest) ! 0,
                take (length (str_split CHR ''_'' (idx @ ''_'' @ rest) ! 1) - 4)
                  (str_split CHR ''_'' (idx @ ''_'' @ rest) ! 1))
       \<and> (CHR ''_'' \<notin> set rest \<longrightarrow>
            parse_filename (idx @ ''_'' @ rest) = Inr (idx, take (length rest - 4) rest))
       \<and> (\<forall>title ext. rest = title @ ''.'' @ ext \<and> CHR ''_'' \<notin> set rest \<and> length ext = 3 \<longrightarrow>
            parse_filename (idx @ ''_'' @ rest) = Inr (idx, title))"
proof -
  obtain t ts where tts: "str_split CHR ''_'' rest = t # ts"
    using str_split_not_Nil by (cases "str_split CHR ''_'' rest") auto
  have toks: "str_split CHR ''_'' (idx @ ''_'' @ rest) = idx # t # ts"
    using assms tts by (simp add: str_split_append)
  have p: "parse_filename (idx @ ''_'' @ rest) = Inr (idx, take (length t - 4) t)"
    using toks by (rule parse_filename_tokens)
  have one: "CHR ''_'' \<notin> set rest \<Longrightarrow> t = rest"
    using tts by (simp add: str_split_no_sep)
  show ?thesis
    using toks p one by auto
qed

theorem parse_filename_valid_witness:
  "CHR ''_'' \<notin> set ''07'' \<and> parse_filename ''07_my-talk.mp3'' = Inr (''07'', ''my-talk'')"
  using parse_filename_valid [of "''07''" "''my-talk.mp3''"] by simp

text \<open>
  Claim C1 as the specification words it fails on the file name of its own example: the
  code removes four characters, the dot with the extension, where the specification
  removes three and keeps the dot.
\<close>

theorem spec_title_counterexample:
  "parse_filename ''07_my-talk.mp3'' = Inr (''07'', ''my-talk'')
   \<and> spec_title ''07_my-talk.mp3'' = ''my-talk.''
   \<and> parse_filename ''07_my-talk.mp3'' \<noteq> Inr (''07'', spec_title ''07_my-talk.mp3'')"
  by (simp add: parse_filename_def py_index_def py_slice_to_def spec_title_def)

text \<open>
  Claim C9. The slice cannot raise: when the second token has four characters or fewer
  the title is the empty string, and so is the title of every chunk of the document.
\<close>

theorem short_token_empty_title:
  assumes "str_split CHR ''_'' audio = t0 # t1 # ts" and "length t1 \<le> 4"
  shows "parse_filename audio = Inr (t0, [])
       \<and> (\<exists>doc. build_document audio result = Inr doc
            \<and> (\<forall>c\<in>set (d_chunks doc). c_title c = []))"
proof -
  have "parse_filename audio = Inr (t0, take (length t1 - 4) t1)"
    using assms(1) by (rule parse_filename_tokens)
  then have p: "parse_filename audio = Inr (t0, [])"
    using assms(2) by simp
  show ?thesis
    using p by (auto simp: build_document_def d_chunks_map)
qed

theorem short_token_empty_title_witness:
  "str_split CHR ''_'' ''07_.mp3'' = ''07'' # ''.mp3'' # []
   \<and> length ''.mp3'' \<le> 4
   \<and> parse_filename ''07_.mp3'' = Inr (''07'', [])
   \<and> (\<exists>doc. build_document ''07_.mp3'' talk_result = Inr doc
            \<and> map c_title (d_chunks doc) = [[]])"
proof -
  have s: "str_split CHR ''_'' ''07_.mp3'' = ''07'' # ''.mp3'' # []"
    by simp
  have l: "length ''.mp3'' \<le> 4"
    by simp
  show ?thesis
    using s l short_token_empty_title [OF s l, of talk_result]
    by (auto simp: build_document_def d_chunks_map talk_result_def)
qed

text \<open>
  Claim C10. In a file name with two or more underscores the number and the title come
  from the first two tokens alone: whatever follows the second underscore changes neither
  the parsed pair nor the document.
\<close>

theorem later_tokens_discarded:
  assumes "CHR ''_'' \<notin> set t0" and "CHR ''_'' \<notin> set t1"
  shows "parse_filename (t0 @ ''_'' @ t1 @ ''_'' @ rest) = Inr (t0, take (length t1 - 4) t1)
       \<and> build_document (t0 @ ''_'' @ t1 @ ''_'' @ rest) result
           = Inr (chunks_with_metadata t0 (take (length t1 - 4) t1) result)
       \<and> build_document (t0 @ ''_'' @ t1 @ ''_'' @ rest) result
           = build_document (t0 @ ''_'' @ t1) result"
proof -
  have "str_split CHR ''_'' (t0 @ ''_'' @ t1 @ ''_'' @ rest) = t0 # t1 # str_split CHR ''_'' rest"
    using assms by (simp add: str_split_append)
  then have p: "parse_filename (t0 @ ''_'' @ t1 @ ''_'' @ rest) = Inr (t0, take (length t1 - 4) t1)"
    by (rule parse_filename_tokens)
  have "str_split CHR ''_'' (t0 @ ''_'' @ t1) = [t0, t1]"
    using assms by (simp add: str_split_append str_split_no_sep)
  then have q: "parse_filename (t0 @ ''_'' @ t1) = Inr (t0, take (length t1 - 4) t1)"
    by (rule parse_filename_tokens)
  show ?thesis
    using p q by (simp add: build_document_def)
qed

theorem later_tokens_discarded_witness:
  "CHR ''_'' \<notin> set ''10'' \<and> CHR ''_'' \<notin> set ''modern''
   \<and> parse_filename ''10_modern_connections.mp3'' = Inr (''10'', ''mo'')
   \<and> build_document ''10_modern_connections.mp3'' talk_result
       = build_document ''10_modern'' talk_result"
proof -
  have a: "CHR ''_'' \<notin> set ''10''" and b: "CHR ''_'' \<notin> set ''modern''"
    by simp_all
  have "parse_filename (''10'' @ ''_'' @ ''modern'' @ ''_'' @ ''connections.mp3'')
          = Inr (''10'', take (length ''modern'' - 4) ''modern'')"
    and "build_document (''10'' @ ''_'' @ ''modern'' @ ''_'' @ ''connections.mp3'') talk_result
          = build_document (''10'' @ ''_'' @ ''modern'') talk_result"
    using later_tokens_discarded [OF a b, of "''connections.mp3''" talk_result] by blast+
  then show ?thesis
    using a b by simp
qed

subsection \<open>The document of a file\<close>

text \<open>
  Claim C2. The document built for a file whose name parses to a number and a title has
  one chunk per segment of the transcription result, in the order of the segments; the
  chunk at each position carries that number and title and the start, end and text of
  the segment at the same position; the text of the document is the text of the result.
\<close>

theorem chunks_follow_segments:
  assumes "parse_filename audio = Inr (number, title)"
  shows "\<exists>doc. build_document audio result = Inr doc
       \<and> length (d_chunks doc) = length (r_segments result)
       \<and> (\<forall>i<length (r_segments result).
            d_chunks doc ! i =
              \<lparr>c_number = number, c_title = title,
               c_start = s_start (r_segments result ! i),
               c_end = s_end (r_segments result ! i),
               c_text = s_text (r_segments result ! i)\<rparr>)
       \<and> d_text doc = r_text result"
  using assms by (simp add: build_document_def d_chunks_map) (simp add: chunks_with_metadata_def)

theorem chunks_follow_segments_witness:
  "parse_filename ''07_my-talk.mp3'' = Inr (''07'', ''my-talk'')
   \<and> (\<exists>doc. build_document ''07_my-talk.mp3'' talk_result = Inr doc
        \<and> length (d_chunks doc) = 1
        \<and> d_chunks doc ! 0 =
             \<lparr>c_number = ''07'', c_title = ''my-talk'', c_start = 0, c_end = 5 / 2,
              c_text = ''hello''\<rparr>
        \<and> d_text doc = ''hello'')"
  using talk_parse chunks_follow_segments [OF talk_parse, of talk_result]
  by (simp add: talk_result_def)

text \<open>
  Claim C3. The file \<open>07_my-talk.mp3\<close> with a transcription result of the single segment
  from 0.0 to 2.5 with text hello, and full text hello, gives the document with the single
  chunk of number 07, title my-talk, start 0.0, end 2.5 and text hello, and the text hello.
\<close>

theorem example_document:
  "build_document ''07_my-talk.mp3''
     \<lparr>r_segments = [\<lparr>s_start = 0 :: real, s_end = 5 / 2, s_text = ''hello''\<rparr>],
      r_text = ''hello''\<rparr>
   = Inr \<lparr>d_chunks = [\<lparr>c_number = ''07'', c_title = ''my-talk'', c_start = 0,
                        c_end = 5 / 2, c_text = ''hello''\<rparr>],
          d_text = ''hello''\<rparr>"
  by (simp add: build_document_def parse_filename_def py_index_def py_slice_to_def
      chunks_with_metadata_def)

subsection \<open>The batch\<close>

text \<open>
  Claim C8. On an empty directory the loop body never runs: nothing is written, nothing
  is printed and no exception is raised.
\<close>

theorem empty_directory: "run_batch env [] w = (w, None)"
  by simp

text \<open>
  Claim C4. A file name without an underscore raises the index error at the parsing of
  the title, before anything is printed or written, and the loop ends there: when the
  entries before it were processed without exception, the batch ends with the index
  error in the state those entries left, whatever entries follow.
\<close>

theorem missing_delimiter_aborts:
  assumes "CHR ''_'' \<notin> set audio" and "run_batch env before w = (w1, None)"
  shows "parse_filename audio = Inl IndexError
       \<and> process_audio env audio w1 = (w1, Some IndexError)
       \<and> run_batch env (before @ audio # later) w = (w1, Some IndexError)"
proof -
  have p: "parse_filename audio = Inl IndexError"
    using assms(1) by (rule parse_filename_no_delim)
  then have q: "process_audio env audio w1 = (w1, Some IndexError)"
    by (simp add: process_audio_def)
  show ?thesis
    using p q assms(2) by (simp add: run_batch_append)
qed

theorem missing_delimiter_aborts_witness:
  "CHR ''_'' \<notin> set ''readme.txt''
   \<and> run_batch talk_env [] empty_world = (empty_world, None)
   \<and> parse_filename ''readme.txt'' = Inl IndexError
   \<and> run_batch talk_env ([] @ ''readme.txt'' # [''07_my-talk.mp3'']) empty_world
       = (empty_world, Some IndexError)"
  using missing_delimiter_aborts [of "''readme.txt''" talk_env "[]" empty_world empty_world
      "[''07_my-talk.mp3'']"]
  by simp

text \<open>
  Claim C5. When every entry of the directory can be processed (its name holds the
  delimiter, the model returns, the output file opens and the serialisation completes),
  the batch ends without exception and, for every entry, the file
  \<open>jsons/<entry>.json\<close> holds the serialisation of the entry's document, whatever was
  there before. Distinct entries have distinct output files, and no other file changes.
\<close>

theorem one_output_per_file:
  assumes "\<forall>a\<in>set audios. audio_ok env a"
  shows "snd (run_batch env audios w) = None
       \<and> (\<forall>a\<in>set audios. \<exists>number title result s.
            parse_filename a = Inr (number, title)
            \<and> transcribe env (in_path a) ''hi'' ''translate'' False = Some result
            \<and> json_dump env (chunks_with_metadata number title result)
                  (''jsons/'' @ a @ ''.json'') = Inr s
            \<and> files (fst (run_batch env audios w)) (''jsons/'' @ a @ ''.json'') = Some s)
       \<and> (\<forall>a b. ''jsons/'' @ a @ ''.json'' = ''jsons/'' @ b @ ''.json'' \<longrightarrow> a = b)
       \<and> (\<forall>p. p \<notin> (\<lambda>a. ''jsons/'' @ a @ ''.json'') ` set audios \<longrightarrow>
            files (fst (run_batch env audios w)) p = files w p)"
proof -
  have "snd (run_batch env audios w) = None"
    using assms by (simp add: run_batch_ok_iff)
  moreover have "\<exists>number title result s.
            parse_filename a = Inr (number, title)
            \<and> transcribe env (in_path a) ''hi'' ''translate'' False = Some result
            \<and> json_dump env (chunks_with_metadata number title result)
                  (''jsons/'' @ a @ ''.json'') = Inr s
            \<and> files (fst (run_batch env audios w)) (''jsons/'' @ a @ ''.json'') = Some s"
    if mem: "a \<in> set audios" for a
  proof -
    have "audio_ok env a"
      using assms mem by simp
    then obtain number title result s where d: "parse_filename a = Inr (number, title)"
      "transcribe env (in_path a) ''hi'' ''translate'' False = Some result"
      "json_dump env (chunks_with_metadata number title result) (out_path a) = Inr s"
      using audio_ok_data by blast
    show ?thesis
      using d run_batch_written [OF assms mem d, of w] by (simp add: out_path_def)
  qed
  moreover have "files (fst (run_batch env audios w)) p = files w p"
    if notin: "p \<notin> (\<lambda>a. ''jsons/'' @ a @ ''.json'') ` set audios" for p
    using notin run_batch_frame [of p audios env w] by (simp add: out_path_def image_def)
  ultimately show ?thesis
    by simp
qed

theorem one_output_per_file_witness:
  "audio_ok talk_env ''07_my-talk.mp3''
   \<and> snd (run_batch talk_env [''07_my-talk.mp3''] empty_world) = None
   \<and> files (fst (run_batch talk_env [''07_my-talk.mp3''] empty_world))
        ''jsons/07_my-talk.mp3.json'' = Some ''my-talkhello''
   \<and> files (fst (run_batch talk_env [''07_my-talk.mp3''] empty_world))
        ''jsons/other.json'' = None"
proof -
  have ok: "\<forall>a\<in>set [''07_my-talk.mp3'']. audio_ok talk_env a"
    using talk_ok by simp
  note h = one_output_per_file [OF ok, of empty_world]
  have "snd (run_batch talk_env [''07_my-talk.mp3''] empty_world) = None"
    using h by blast
  moreover have "files (fst (run_batch talk_env [''07_my-talk.mp3''] empty_world))
        ''jsons/07_my-talk.mp3.json'' = Some ''my-talkhello''"
    using h talk_parse
    by (simp add: talk_env_def in_path_def talk_result_def chunks_with_metadata_def)
  moreover have "files (fst (run_batch talk_env [''07_my-talk.mp3''] empty_world))
        ''jsons/other.json'' = None"
    using h by (simp add: empty_world_def)
  ultimately show ?thesis
    using talk_ok by blast
qed

text \<open>
  Claim C6. A second run on the same directory, with a model that returns for each entry
  what the first returned and with the same serialisation and the same disk behaviour,
  leaves every file as the first run left it and ends as the first run ended: each
  output file is overwritten with the content it already has.
\<close>

theorem rerun_same_files:
  assumes "\<forall>a\<in>set audios. transcribe env' (in_path a) ''hi'' ''translate'' False
             = transcribe env (in_path a) ''hi'' ''translate'' False"
    and "can_open env' = can_open env" and "json_dump env' = json_dump env"
  shows "files (fst (rerun env' audios (fst (run_batch env audios w))))
           = files (fst (run_batch env audios w))
       \<and> snd (rerun env' audios (fst (run_batch env audios w))) = snd (run_batch env audios w)"
proof -
  define w1 where "w1 = fst (run_batch env audios w)"
  define z where "z = w\<lparr>files := Map.empty\<rparr>"
  define E where "E = files (fst (run_batch env audios z))"
  have first: "files w1 = files w ++ E"
    "snd (run_batch env audios w) = snd (run_batch env audios z)"
    using run_batch_shift [of audios env env w "files w" z]
    by (simp_all add: w1_def E_def z_def)
  have second: "files (fst (run_batch env' audios (w1\<lparr>stdout := []\<rparr>))) = files w1 ++ E"
    "snd (run_batch env' audios (w1\<lparr>stdout := []\<rparr>)) = snd (run_batch env audios z)"
    using run_batch_shift [OF assms, of "w1\<lparr>stdout := []\<rparr>" "files w1" z]
    by (simp_all add: E_def z_def)
  have "files w1 ++ E = files w1"
    using first(1) by (simp add: map_add_twice)
  then show ?thesis
    using first second by (simp add: rerun_def w1_def)
qed

theorem rerun_same_files_witness:
  "transcribe talk_env2 (in_path ''07_my-talk.mp3'') ''hi'' ''translate'' False
     = transcribe talk_env (in_path ''07_my-talk.mp3'') ''hi'' ''translate'' False
   \<and> can_open talk_env2 = can_open talk_env
   \<and> json_dump talk_env2 = json_dump talk_env
   \<and> files (fst (rerun talk_env2 [''07_my-talk.mp3'']
                (fst (run_batch talk_env [''07_my-talk.mp3''] empty_world))))
       = files (fst (run_batch talk_env [''07_my-talk.mp3''] empty_world))
   \<and> snd (rerun talk_env2 [''07_my-talk.mp3'']
                (fst (run_batch talk_env [''07_my-talk.mp3''] empty_world))) = None"
proof -
  have t: "\<forall>a\<in>set [''07_my-talk.mp3''].
       transcribe talk_env2 (in_path a) ''hi'' ''translate'' False
         = transcribe talk_env (in_path a) ''hi'' ''translate'' False"
    by (simp add: talk_env_def talk_env2_def in_path_def)
  have c: "can_open talk_env2 = can_open talk_env"
    and j: "json_dump talk_env2 = json_dump talk_env"
    by (simp_all add: talk_env_def talk_env2_def)
  have n: "snd (run_batch talk_env [''07_my-talk.mp3''] empty_world) = None"
    using talk_ok by (subst run_batch_ok_iff) simp
  show ?thesis
    using t c j n rerun_same_files [OF t c j, of empty_world] by simp
qed

text \<open>
  Claim C7, with the one case in which the failing entry leaves a file. When the entries
  before an entry were processed without exception and the entry raises, the batch ends
  with that exception whatever entries follow. Every file other than the entry's own
  output file is as the earlier entries left it, so their output files are kept and no
  later entry is written. The entry's own output file is untouched too unless the
  exception comes after the file was opened, from the serialisation or from the closing
  of the file: then the disk is the one the earlier entries left with the entry's output
  file holding exactly what was written before the exception, in place of whatever it
  held before, and nothing restores or removes it.
\<close>

theorem failure_stops_batch:
  assumes "run_batch env before w = (w1, None)" and "audio_error env audio = Some e"
  shows "\<exists>w'. run_batch env (before @ audio # later) w = (w', Some e)
       \<and> (\<forall>p. p \<noteq> out_path audio \<longrightarrow> files w' p = files w1 p)
       \<and> (e \<noteq> DumpError \<longrightarrow> files w' = files w1)
       \<and> (e = DumpError \<longrightarrow>
            (\<exists>number title result s.
               parse_filename audio = Inr (number, title)
               \<and> transcribe env (in_path audio) ''hi'' ''translate'' False = Some result
               \<and> json_dump env (chunks_with_metadata number title result) (out_path audio)
                     = Inl s
               \<and> files w' = (files w1)(out_path audio \<mapsto> s)))
       \<and> (\<forall>a\<in>set before. a \<noteq> audio \<longrightarrow>
            (\<exists>s. files w1 (out_path a) = Some s \<and> files w' (out_path a) = Some s))"
proof -
  obtain w' r where step: "process_audio env audio w1 = (w', r)"
    by (cases "process_audio env audio w1")
  have r: "r = Some e"
    using process_audio_error [of env audio w1] step assms(2) by simp
  have run: "run_batch env (before @ audio # later) w = (w', Some e)"
    using assms(1) step r by (simp add: run_batch_append)
  have frame: "files w' p = files w1 p" if ne: "p \<noteq> out_path audio" for p
    using process_audio_frame [OF ne, of env w1] step by simp
  have untouched: "files w' = files w1" if nd: "e \<noteq> DumpError"
    using process_audio_no_write [OF assms(2) nd, of w1] step by simp
  have truncated: "\<exists>number title result s.
               parse_filename audio = Inr (number, title)
               \<and> transcribe env (in_path audio) ''hi'' ''translate'' False = Some result
               \<and> json_dump env (chunks_with_metadata number title result) (out_path audio)
                     = Inl s
               \<and> files w' = (files w1)(out_path audio \<mapsto> s)"
    if d: "e = DumpError"
  proof -
    obtain number title result s where x: "parse_filename audio = Inr (number, title)"
      "transcribe env (in_path audio) ''hi'' ''translate'' False = Some result"
      "can_open env (out_path audio)"
      "json_dump env (chunks_with_metadata number title result) (out_path audio) = Inl s"
      using audio_error_dump [of env audio] assms(2) d by blast
    have "files w' = (files w1)(out_path audio \<mapsto> s)"
      using process_audio_dump_failure [OF x, of w1] step by simp
    then show ?thesis
      using x by blast
  qed
  have ok: "\<forall>a\<in>set before. audio_ok env a"
    using run_batch_ok_iff [of env before w] assms(1) by simp
  have w1: "w1 = fst (run_batch env before w)"
    using assms(1) by simp
  have kept: "\<exists>s. files w1 (out_path a) = Some s \<and> files w' (out_path a) = Some s"
    if mem: "a \<in> set before" and ne: "a \<noteq> audio" for a
  proof -
    have "audio_ok env a"
      using ok mem by simp
    then obtain number title result s where d: "parse_filename a = Inr (number, title)"
      "transcribe env (in_path a) ''hi'' ''translate'' False = Some result"
      "json_dump env (chunks_with_metadata number title result) (out_path a) = Inr s"
      using audio_ok_data by blast
    have "files w1 (out_path a) = Some s"
      using run_batch_written [OF ok mem d, of w] w1 by simp
    moreover have "out_path a \<noteq> out_path audio"
      using ne by (simp add: out_path_inject)
    ultimately show ?thesis
      using frame by simp
  qed
  show ?thesis
    using run frame untouched truncated kept by blast
qed

theorem failure_stops_batch_witness:
  "run_batch talk_env [''07_my-talk.mp3''] empty_world
     = (\<lparr>files = [''jsons/07_my-talk.mp3.json'' \<mapsto> ''my-talkhello''],
         stdout = [''07 my-talk'']\<rparr>, None)
   \<and> audio_error talk_env ''08_next.mp3'' = Some TranscribeError
   \<and> (\<exists>w'. run_batch talk_env ([''07_my-talk.mp3''] @ ''08_next.mp3'' # [''09_last.mp3''])
               empty_world = (w', Some TranscribeError)
         \<and> files w' = [''jsons/07_my-talk.mp3.json'' \<mapsto> ''my-talkhello''])
   \<and> run_batch small_disk_env [''07_my-talk.mp3''] old_world
     = (\<lparr>files = [''jsons/08_next.mp3.json'' \<mapsto> ''old'',
                  ''jsons/07_my-talk.mp3.json'' \<mapsto> ''my-talkhello''],
         stdout = [''07 my-talk'']\<rparr>, None)
   \<and> audio_error small_disk_env ''08_next.mp3'' = Some DumpError
   \<and> (\<exists>w'. run_batch small_disk_env
               ([''07_my-talk.mp3''] @ ''08_next.mp3'' # [''09_last.mp3'']) old_world
               = (w', Some DumpError)
         \<and> files w' = [''jsons/08_next.mp3.json'' \<mapsto> ''{'',
                          ''jsons/07_my-talk.mp3.json'' \<mapsto> ''my-talkhello''])"
proof -
  have r: "run_batch talk_env [''07_my-talk.mp3''] empty_world
     = (\<lparr>files = [''jsons/07_my-talk.mp3.json'' \<mapsto> ''my-talkhello''],
         stdout = [''07 my-talk'']\<rparr>, None)"
    by (simp add: process_audio_def talk_parse talk_env_def in_path_def out_path_def
        empty_world_def talk_result_def chunks_with_metadata_def)
  have next_parse: "parse_filename ''08_next.mp3'' = Inr (''08'', ''next'')"
    by (simp add: parse_filename_def py_index_def py_slice_to_def)
  have f: "audio_error talk_env ''08_next.mp3'' = Some TranscribeError"
    by (simp add: audio_error_def next_parse talk_env_def in_path_def)
  have first: "\<exists>w'. run_batch talk_env
               ([''07_my-talk.mp3''] @ ''08_next.mp3'' # [''09_last.mp3'']) empty_world
               = (w', Some TranscribeError)
         \<and> files w' = [''jsons/07_my-talk.mp3.json'' \<mapsto> ''my-talkhello'']"
    using failure_stops_batch [OF r f, of "[''09_last.mp3'']"] by auto
  have r2: "run_batch small_disk_env [''07_my-talk.mp3''] old_world
     = (\<lparr>files = [''jsons/08_next.mp3.json'' \<mapsto> ''old'',
                  ''jsons/07_my-talk.mp3.json'' \<mapsto> ''my-talkhello''],
         stdout = [''07 my-talk'']\<rparr>, None)"
    by (simp add: process_audio_def talk_parse small_disk_env_def talk_env2_def in_path_def
        out_path_def old_world_def talk_result_def chunks_with_metadata_def)
  have f2: "audio_error small_disk_env ''08_next.mp3'' = Some DumpError"
    by (simp add: audio_error_def next_parse small_disk_env_def talk_env2_def in_path_def
        out_path_def)
  have dumped: "json_dump small_disk_env doc (out_path ''08_next.mp3'') = Inl ''{''" for doc
    by (simp add: small_disk_env_def talk_env2_def out_path_def)
  have upd: "[''jsons/08_next.mp3.json'' \<mapsto> ''old'',
              ''jsons/07_my-talk.mp3.json'' \<mapsto> ''my-talkhello'']
              (out_path ''08_next.mp3'' \<mapsto> ''{'')
           = [''jsons/08_next.mp3.json'' \<mapsto> ''{'',
              ''jsons/07_my-talk.mp3.json'' \<mapsto> ''my-talkhello'']"
    by (rule ext) (simp add: out_path_def)
  have second: "\<exists>w'. run_batch small_disk_env
               ([''07_my-talk.mp3''] @ ''08_next.mp3'' # [''09_last.mp3'']) old_world
               = (w', Some DumpError)
         \<and> files w' = [''jsons/08_next.mp3.json'' \<mapsto> ''{'',
                          ''jsons/07_my-talk.mp3.json'' \<mapsto> ''my-talkhello'']"
    using failure_stops_batch [OF r2 f2, of "[''09_last.mp3'']"] dumped upd by auto
  show ?thesis
    using r f first r2 f2 second by blast
qed

text \<open>
  Claim C7 as the specification words it fails when the serialisation raises: the entry
  fails, and yet its output file, absent before the run, exists after it.
\<close>

theorem dump_failure_counterexample:
  "audio_error full_disk_env ''07_my-talk.mp3'' = Some DumpError
   \<and> snd (run_batch full_disk_env [''07_my-talk.mp3''] empty_world) = Some DumpError
   \<and> files empty_world ''jsons/07_my-talk.mp3.json'' = None
   \<and> files (fst (run_batch full_disk_env [''07_my-talk.mp3''] empty_world))
        ''jsons/07_my-talk.mp3.json'' = Some ''{''"
  by (simp add: audio_error_def process_audio_def talk_parse full_disk_env_def talk_env_def
      in_path_def out_path_def empty_world_def)

end
